theory Spec2Isabelle
  imports Main
begin

section \<open>External collaborators\<close>

text \<open>
  The components of \<^verbatim>\<open>NavigationSidebar.tsx\<close> and \<^verbatim>\<open>AvatarContainer\<close> talk to four
  collaborators they do not own: the streaming client, the view context, the router and
  the logging utilities. Every call to one of them is recorded, in program order, in a
  trace of effects; what a call does to the state the components can observe is written
  out beside it.

  A JavaScript error value is opaque to this code: it is only handed on to a logger.
\<close>

datatype js_error = JsError string

text \<open>
  The streaming client as the components meet it: how the promise returned by
  \<^verbatim>\<open>stopStreaming()\<close> settles and how the promise returned by
  \<^verbatim>\<open>streamToVideoAndAudioElements(..)\<close> settles (\<open>Inl e\<close>: rejected with \<open>e\<close>,
  \<open>Inr ()\<close>: fulfilled). Both are inputs of the model: the client decides them. A
  promise that never settles is not among them: an \<^verbatim>\<open>await\<close> on it would not return.
\<close>

record anam_client =
  stopStreaming_settles :: "js_error + unit"
  streamTo_settles :: "js_error + unit"

section \<open>The navigation sidebar\<close>

datatype effect =
    StopStreaming
  | LoggerError string js_error
  | LoggerInfo string
  | ConsoleError js_error
  | RouterPush string
  | ChangeView string
  | SetOpen bool

text \<open>
  What a click can change: the \<^verbatim>\<open>open\<close> flag of the sidebar (\<^verbatim>\<open>useState(false)\<close>,
  here \<open>is_open\<close>), the current view of the view context, the location the router
  shows, and the trace.
\<close>

record world =
  is_open :: bool
  currentView :: string
  location :: string
  trace :: "effect list"

text \<open>
  An \<^verbatim>\<open>async\<close> function, or a promise: run on a world it either fulfils with a value
  (\<open>Inr\<close>) or rejects with an error (\<open>Inl\<close>), and leaves a world behind. \<open>await\<close> hands
  a fulfilled value to the rest of the function and lets a rejection escape from it;
  \<open>catch\<close> is \<^verbatim>\<open>promise.catch(handler)\<close>.
\<close>

type_synonym 'a async = "world \<Rightarrow> (js_error + 'a) \<times> world"

definition resolve :: "'a \<Rightarrow> 'a async" where
  "resolve x w = (Inr x, w)"

definition await :: "'a async \<Rightarrow> ('a \<Rightarrow> 'b async) \<Rightarrow> 'b async" where
  "await p k w = (case p w of (Inl e, w') \<Rightarrow> (Inl e, w') | (Inr x, w') \<Rightarrow> k x w')"

definition catch :: "'a async \<Rightarrow> (js_error \<Rightarrow> 'a async) \<Rightarrow> 'a async" where
  "catch p h w = (case p w of (Inl e, w') \<Rightarrow> h e w' | (Inr x, w') \<Rightarrow> (Inr x, w'))"

definition emit :: "effect \<Rightarrow> world \<Rightarrow> world" where
  "emit e w = w\<lparr>trace := trace w @ [e]\<rparr>"

definition stopStreaming :: "anam_client \<Rightarrow> unit async" where
  "stopStreaming c w = (stopStreaming_settles c, emit StopStreaming w)"

definition logger_error :: "string \<Rightarrow> js_error \<Rightarrow> unit async" where
  "logger_error msg e w = (Inr (), emit (LoggerError msg e) w)"

definition logger_info :: "string \<Rightarrow> unit async" where
  "logger_info msg w = (Inr (), emit (LoggerInfo msg) w)"

definition console_error :: "js_error \<Rightarrow> unit async" where
  "console_error e w = (Inr (), emit (ConsoleError e) w)"

definition router_push :: "string \<Rightarrow> unit async" where
  "router_push path w = (Inr (), emit (RouterPush path) (w\<lparr>location := path\<rparr>))"

definition changeView :: "string \<Rightarrow> unit async" where
  "changeView v w = (Inr (), emit (ChangeView v) (w\<lparr>currentView := v\<rparr>))"

definition setOpen :: "bool \<Rightarrow> unit async" where
  "setOpen b w = (Inr (), emit (SetOpen b) (w\<lparr>is_open := b\<rparr>))"

subsection \<open>The menu\<close>

record MenuItem =
  title :: string
  navigateTo :: string
  gap :: bool
  clickable :: bool

definition Menus :: "MenuItem list" where
  "Menus =
    [\<lparr>title = ''Lessons'', navigateTo = ''Demo'', gap = False, clickable = True\<rparr>,
     \<lparr>title = ''Vocabulary'', navigateTo = ''Vocabulary'', gap = False, clickable = False\<rparr>,
     \<lparr>title = ''Practice'', navigateTo = ''Practice'', gap = True, clickable = False\<rparr>,
     \<lparr>title = ''Progress'', navigateTo = ''Progress'', gap = False, clickable = False\<rparr>,
     \<lparr>title = ''Settings'', navigateTo = ''Settings'', gap = True, clickable = True\<rparr>,
     \<lparr>title = ''Exit'', navigateTo = ''Initial'', gap = True, clickable = True\<rparr>]"

subsection \<open>The click handlers\<close>

definition handleExitClick :: "anam_client option \<Rightarrow> unit async" where
  "handleExitClick anamClient =
     await (case anamClient of
              Some c \<Rightarrow>
                await (catch (stopStreaming c) console_error)
                  (\<lambda>_. logger_info ''stopped streaming'')
            | None \<Rightarrow> resolve ())
       (\<lambda>_. await (router_push ''/'')
         (\<lambda>_. await (changeView ''Demo'')
           (\<lambda>_. setOpen False)))"

definition handleMenuClick :: "anam_client option \<Rightarrow> string \<Rightarrow> bool \<Rightarrow> unit async" where
  "handleMenuClick anamClient navigateTo' clickable' w =
     (if \<not> clickable' then resolve () w
      else
        await
          (if navigateTo' = ''Initial'' then handleExitClick anamClient
           else
             await
               (if currentView w = ''Demo'' \<and> navigateTo' \<noteq> ''Demo'' then
                  (case anamClient of
                     Some c \<Rightarrow>
                       catch (stopStreaming c) (logger_error ''Failed to stop streaming:'')
                   | None \<Rightarrow> resolve ())
                else resolve ())
               (\<lambda>_. await (changeView navigateTo')
                 (\<lambda>_. logger_info ''stopped streaming'')))
          (\<lambda>_. setOpen False) w)"

text \<open>The \<^verbatim>\<open>onClick\<close> of a menu entry: \<^verbatim>\<open>handleMenuClick(navigateTo, clickable)\<close>.\<close>

definition onClick :: "anam_client option \<Rightarrow> MenuItem \<Rightarrow> unit async" where
  "onClick anamClient item = handleMenuClick anamClient (navigateTo item) (clickable item)"

text \<open>The effects a call adds to the trace, and the state of the user interface.\<close>

definition emitted :: "'a async \<Rightarrow> world \<Rightarrow> effect list" where
  "emitted m w = drop (length (trace w)) (trace (snd (m w)))"

definition ui :: "world \<Rightarrow> bool \<times> string \<times> string" where
  "ui w = (is_open w, currentView w, location w)"

section \<open>The avatar panel\<close>

datatype AnamEvent = CONNECTION_ESTABLISHED | VIDEO_PLAY_STARTED | CONNECTION_CLOSED

text \<open>
  The three callbacks of \<^verbatim>\<open>AvatarContainer\<close>. Each is made by \<^verbatim>\<open>useCallback(.., [])\<close>, so a
  mounted instance keeps one function object per callback for its whole life, and
  another instance has its own: a callback reference is the instance together with the
  callback's name.
\<close>

datatype handler = onConnectionEstablished | onVideoStartedStreaming | onConnectionClosed

type_synonym callback = "nat \<times> handler"

text \<open>A DOM media element, of which the code reads the \<^verbatim>\<open>id\<close> only.\<close>

record element =
  element_id :: string

text \<open>The \<^verbatim>\<open><video id="video" ..>\<close> and \<^verbatim>\<open><audio id="audio" ..>\<close> the panel renders.\<close>

definition video :: element where
  "video = \<lparr>element_id = ''video''\<rparr>"

definition audio :: element where
  "audio = \<lparr>element_id = ''audio''\<rparr>"

text \<open>What \<^verbatim>\<open>useAnamContext()\<close> hands to the panel.\<close>

record anam_context =
  anamClient :: "anam_client option"
  isClientInitialized :: bool

datatype call =
    AddListener AnamEvent callback
  | RemoveListener AnamEvent callback
  | StreamToVideoAndAudioElements string string
  | ErrorHandler js_error
  | SetInterval nat nat
  | ClearInterval nat

text \<open>
  What surrounds a panel: the listeners the client holds, in the order of their
  registration; the handles of the intervals the browser will still fire; the next
  handle \<^verbatim>\<open>setInterval\<close> gives out; and the calls made so far.
\<close>

record page =
  listeners :: "(AnamEvent \<times> callback) list"
  intervals :: "nat list"
  next_handle :: nat
  calls :: "call list"

text \<open>
  Modelled from the spec: the streaming client is a third-party library and none of it
  is among the sources. The spec gives it "an event-subscription interface keyed by event
  names accepting/removing callback references": \<open>addListener\<close> stores the pair, also
  when it is stored already, and \<open>removeListener\<close> takes one stored occurrence of the pair
  away, none when there is none. Neither throws.
\<close>

definition addListener :: "AnamEvent \<Rightarrow> callback \<Rightarrow> page \<Rightarrow> page" where
  "addListener ev cb w =
     w\<lparr>listeners := listeners w @ [(ev, cb)], calls := calls w @ [AddListener ev cb]\<rparr>"

definition removeListener :: "AnamEvent \<Rightarrow> callback \<Rightarrow> page \<Rightarrow> page" where
  "removeListener ev cb w =
     w\<lparr>listeners := remove1 (ev, cb) (listeners w), calls := calls w @ [RemoveListener ev cb]\<rparr>"

definition streamToVideoAndAudioElements ::
    "anam_client \<Rightarrow> string \<Rightarrow> string \<Rightarrow> page \<Rightarrow> (js_error + unit) \<times> page" where
  "streamToVideoAndAudioElements c videoElementId audioElementId w =
     (streamTo_settles c,
      w\<lparr>calls := calls w @ [StreamToVideoAndAudioElements videoElementId audioElementId]\<rparr>)"

definition errorHandler :: "js_error \<Rightarrow> page \<Rightarrow> page" where
  "errorHandler e w = w\<lparr>calls := calls w @ [ErrorHandler e]\<rparr>"

text \<open>
  The browser's timers: \<^verbatim>\<open>setInterval(callback, ms)\<close> returns a new handle and keeps
  firing the callback until \<^verbatim>\<open>clearInterval(handle)\<close>.
\<close>

definition setInterval :: "nat \<Rightarrow> page \<Rightarrow> nat \<times> page" where
  "setInterval ms w =
     (next_handle w,
      w\<lparr>intervals := next_handle w # intervals w,
        next_handle := Suc (next_handle w),
        calls := calls w @ [SetInterval ms (next_handle w)]\<rparr>)"

definition clearInterval :: "nat \<Rightarrow> page \<Rightarrow> page" where
  "clearInterval h w =
     w\<lparr>intervals := removeAll h (intervals w), calls := calls w @ [ClearInterval h]\<rparr>"

subsection \<open>The state and the callbacks\<close>

text \<open>
  The three \<^verbatim>\<open>useState\<close> cells. The counter starts at 0 and is only ever added to by
  one, so it stays a natural number (far below \<open>2^53\<close>, where JavaScript's numbers stop
  being exact).
\<close>

record AvatarContainer =
  loading :: bool
  loadingText :: string
  secondsElapsed :: nat

definition initial_state :: AvatarContainer where
  "initial_state = \<lparr>loading = True, loadingText = ''Connecting...'', secondsElapsed = 0\<rparr>"

definition setLoading :: "bool \<Rightarrow> AvatarContainer \<Rightarrow> AvatarContainer" where
  "setLoading b s = s\<lparr>loading := b\<rparr>"

definition setLoadingText :: "string \<Rightarrow> AvatarContainer \<Rightarrow> AvatarContainer" where
  "setLoadingText t s = s\<lparr>loadingText := t\<rparr>"

definition setSecondsElapsed :: "(nat \<Rightarrow> nat) \<Rightarrow> AvatarContainer \<Rightarrow> AvatarContainer" where
  "setSecondsElapsed f s = s\<lparr>secondsElapsed := f (secondsElapsed s)\<rparr>"

fun run_handler :: "handler \<Rightarrow> AvatarContainer \<Rightarrow> AvatarContainer" where
  "run_handler onConnectionEstablished s = setLoadingText ''Connected to a Persona.'' s"
| "run_handler onVideoStartedStreaming s = setLoading False s"
| "run_handler onConnectionClosed s = setLoading False s"

text \<open>
  The client emits an event: it calls, in the order of registration, every callback
  stored for that event; those of instance \<open>inst\<close> act on that instance's state.
\<close>

fun deliver ::
    "nat \<Rightarrow> AnamEvent \<Rightarrow> (AnamEvent \<times> callback) list \<Rightarrow> AvatarContainer \<Rightarrow> AvatarContainer" where
  "deliver inst ev [] s = s"
| "deliver inst ev ((ev', (i, h)) # ls) s =
     deliver inst ev ls (if ev' = ev \<and> i = inst then run_handler h s else s)"

subsection \<open>The effects\<close>

text \<open>
  The first effect calls \<^verbatim>\<open>startStreaming()\<close> and does not wait for it. The function
  runs at once up to its \<^verbatim>\<open>await\<close>: the guard, the three registrations and the
  streaming call, whose promise it then awaits (\<open>None\<close>: the guard failed and there is
  nothing to await). The rest of the function, the \<^verbatim>\<open>catch\<close> that hands a rejection to
  \<^verbatim>\<open>errorHandler\<close>, runs only once that promise has settled, so after the effects of
  the commit. \<open>videoRef\<close> and \<open>audioRef\<close> are what the two refs hold when the effect
  runs.
\<close>

definition startStreaming_begin ::
    "nat \<Rightarrow> anam_context \<Rightarrow> element option \<Rightarrow> element option \<Rightarrow> page \<Rightarrow>
     (js_error + unit) option \<times> page" where
  "startStreaming_begin inst ctx videoRef audioRef w =
     (case (isClientInitialized ctx, anamClient ctx, videoRef, audioRef) of
        (True, Some c, Some v, Some a) \<Rightarrow>
          (let w1 = addListener CONNECTION_ESTABLISHED (inst, onConnectionEstablished) w;
               w2 = addListener VIDEO_PLAY_STARTED (inst, onVideoStartedStreaming) w1;
               w3 = addListener CONNECTION_CLOSED (inst, onConnectionClosed) w2
           in case streamToVideoAndAudioElements c (element_id v) (element_id a) w3 of
                (settled, w4) \<Rightarrow> (Some settled, w4))
      | _ \<Rightarrow> (None, w))"

definition startStreaming_resume :: "(js_error + unit) option \<Rightarrow> page \<Rightarrow> page" where
  "startStreaming_resume awaited w =
     (case awaited of Some (Inl e) \<Rightarrow> errorHandler e w | _ \<Rightarrow> w)"

text \<open>The whole function, when nothing else runs between its two parts.\<close>

definition startStreaming ::
    "nat \<Rightarrow> anam_context \<Rightarrow> element option \<Rightarrow> element option \<Rightarrow> page \<Rightarrow> page" where
  "startStreaming inst ctx videoRef audioRef w =
     (case startStreaming_begin inst ctx videoRef audioRef w of
        (awaited, w') \<Rightarrow> startStreaming_resume awaited w')"

text \<open>Its cleanup, closed over the same \<open>anamClient\<close> and the same three callbacks.\<close>

definition cleanup_listeners :: "nat \<Rightarrow> anam_context \<Rightarrow> page \<Rightarrow> page" where
  "cleanup_listeners inst ctx w =
     (case anamClient ctx of
        Some c \<Rightarrow>
          removeListener CONNECTION_CLOSED (inst, onConnectionClosed)
            (removeListener VIDEO_PLAY_STARTED (inst, onVideoStartedStreaming)
              (removeListener CONNECTION_ESTABLISHED (inst, onConnectionEstablished) w))
      | None \<Rightarrow> w)"

text \<open>
  A mounted panel: its instance, the context its first effect closed over, the handle
  its second effect closed over, and its state. Mounting runs the first effect
  (\<^verbatim>\<open>startStreaming\<close> up to its \<^verbatim>\<open>await\<close>), then the second (\<^verbatim>\<open>setInterval\<close>), and
  then lets the awaited promise settle, which resumes \<^verbatim>\<open>startStreaming\<close>.
\<close>

record mounted =
  instance_id :: nat
  context_seen :: anam_context
  interval :: nat
  state :: AvatarContainer

definition mount ::
    "nat \<Rightarrow> anam_context \<Rightarrow> element option \<Rightarrow> element option \<Rightarrow> page \<Rightarrow> mounted \<times> page" where
  "mount inst ctx videoRef audioRef w =
     (case startStreaming_begin inst ctx videoRef audioRef w of
        (awaited, w1) \<Rightarrow>
          (case setInterval 1000 w1 of
             (h, w2) \<Rightarrow>
               (\<lparr>instance_id = inst, context_seen = ctx, interval = h, state = initial_state\<rparr>,
                startStreaming_resume awaited w2)))"

definition unmount :: "mounted \<Rightarrow> page \<Rightarrow> page" where
  "unmount m w =
     clearInterval (interval m) (cleanup_listeners (instance_id m) (context_seen m) w)"

text \<open>
  The browser fires the interval with handle \<open>h\<close>: when the handle is still one of the
  page's intervals and is the panel's, the panel's timer callback runs,
  \<^verbatim>\<open>setSecondsElapsed((prev) => prev + 1)\<close>.
\<close>

definition tick :: "nat \<Rightarrow> mounted \<Rightarrow> page \<Rightarrow> mounted" where
  "tick h m w =
     (if h \<in> set (intervals w) \<and> h = interval m
      then m\<lparr>state := setSecondsElapsed (\<lambda>prev. prev + 1) (state m)\<rparr>
      else m)"

text \<open>
  Modelled from the spec: \<^verbatim>\<open>DemoControls.tsx\<close> is a file of this repository that is not
  among the sources; the panel hands it \<open>secondsElapsed\<close>, \<open>audioRef\<close> and
  \<open>setSecondsElapsed\<close>. The spec says of the counter "reset never occurs, increments
  every second while mounted" and names no other writer, so an action of the controls is
  modelled as leaving the counter as it is.
\<close>

definition DemoControls :: "AvatarContainer \<Rightarrow> AvatarContainer" where
  "DemoControls s = s"

text \<open>Everything that can happen to a mounted panel, and a run of such operations.\<close>

datatype panel_op = Tick nat | Emit AnamEvent | Controls

fun step :: "panel_op \<Rightarrow> mounted \<times> page \<Rightarrow> mounted \<times> page" where
  "step (Tick h) (m, w) = (tick h m w, w)"
| "step (Emit ev) (m, w) =
     (m\<lparr>state := deliver (instance_id m) ev (listeners w) (state m)\<rparr>, w)"
| "step Controls (m, w) = (m\<lparr>state := DemoControls (state m)\<rparr>, w)"

fun run :: "panel_op list \<Rightarrow> mounted \<times> page \<Rightarrow> mounted \<times> page" where
  "run [] mw = mw"
| "run (x # xs) mw = run xs (step x mw)"

text \<open>The pairs a list of calls registers, and the pairs it removes.\<close>

fun registered :: "call list \<Rightarrow> (AnamEvent \<times> callback) list" where
  "registered [] = []"
| "registered (AddListener ev cb # cs) = (ev, cb) # registered cs"
| "registered (_ # cs) = registered cs"

fun removed :: "call list \<Rightarrow> (AnamEvent \<times> callback) list" where
  "removed [] = []"
| "removed (RemoveListener ev cb # cs) = (ev, cb) # removed cs"
| "removed (_ # cs) = removed cs"

definition new_calls :: "page \<Rightarrow> page \<Rightarrow> call list" where
  "new_calls w w' = drop (length (calls w)) (calls w')"

text \<open>The three pairs of an instance, and a mount followed by its unmount.\<close>

definition own_listeners :: "nat \<Rightarrow> (AnamEvent \<times> callback) list" where
  "own_listeners inst =
     [(CONNECTION_ESTABLISHED, (inst, onConnectionEstablished)),
      (VIDEO_PLAY_STARTED, (inst, onVideoStartedStreaming)),
      (CONNECTION_CLOSED, (inst, onConnectionClosed))]"

definition owners :: "(AnamEvent \<times> callback) list \<Rightarrow> nat set" where
  "owners ls = set (map (\<lambda>p. fst (snd p)) ls)"

type_synonym mounting = "nat \<times> anam_context \<times> element option \<times> element option"

fun remount :: "mounting \<Rightarrow> page \<Rightarrow> page" where
  "remount (inst, ctx, videoRef, audioRef) w =
     (case mount inst ctx videoRef audioRef w of (m, w') \<Rightarrow> unmount m w')"

fun remounts :: "mounting list \<Rightarrow> page \<Rightarrow> page" where
  "remounts [] w = w"
| "remounts (x # xs) w = remounts xs (remount x w)"

section \<open>Vocabulary of the properties\<close>

text \<open>
  The reports of an error, and the property of a list of effects that every
  \<open>StopStreaming\<close> in it is followed at once by a report of the error \<open>e\<close>.
\<close>

definition is_error_report :: "effect \<Rightarrow> bool" where
  "is_error_report x = (case x of LoggerError _ _ \<Rightarrow> True | ConsoleError _ \<Rightarrow> True | _ \<Rightarrow> False)"

fun reported_after_stop :: "js_error \<Rightarrow> effect list \<Rightarrow> bool" where
  "reported_after_stop e [] = True"
| "reported_after_stop e (StopStreaming # xs) =
     (case xs of
        LoggerError _ e' # ys \<Rightarrow> e' = e \<and> reported_after_stop e ys
      | ConsoleError e' # ys \<Rightarrow> e' = e \<and> reported_after_stop e ys
      | _ \<Rightarrow> False)"
| "reported_after_stop e (x # xs) = reported_after_stop e xs"

text \<open>Concrete inputs, on which the properties are run.\<close>

definition failing_client :: anam_client where
  "failing_client =
     \<lparr>stopStreaming_settles = Inl (JsError ''network''), streamTo_settles = Inr ()\<rparr>"

definition rejecting_stream_client :: anam_client where
  "rejecting_stream_client =
     \<lparr>stopStreaming_settles = Inr (), streamTo_settles = Inl (JsError ''camera'')\<rparr>"

definition demo_world :: world where
  "demo_world = \<lparr>is_open = True, currentView = ''Demo'', location = ''/demo'', trace = []\<rparr>"

definition empty_page :: page where
  "empty_page = \<lparr>listeners = [], intervals = [], next_handle = 0, calls = []\<rparr>"

definition ready_context :: anam_context where
  "ready_context = \<lparr>anamClient = Some failing_client, isClientInitialized = True\<rparr>"

definition waiting_context :: anam_context where
  "waiting_context = \<lparr>anamClient = Some failing_client, isClientInitialized = False\<rparr>"

section \<open>The handlers and effects, computed\<close>

lemmas async_defs = resolve_def await_def catch_def emit_def stopStreaming_def logger_error_def
  logger_info_def console_error_def router_push_def changeView_def setOpen_def

lemma handleExitClick_run:
  "handleExitClick client w =
     (Inr (),
      w\<lparr>is_open := False, currentView := ''Demo'', location := ''/'',
        trace := trace w @
          (case client of
             None \<Rightarrow> []
           | Some c \<Rightarrow>
               StopStreaming #
               (case stopStreaming_settles c of Inl e \<Rightarrow> [ConsoleError e] | Inr _ \<Rightarrow> []) @
               [LoggerInfo ''stopped streaming'']) @
          [RouterPush ''/'', ChangeView ''Demo'', SetOpen False]\<rparr>)"
  by (simp add: handleExitClick_def async_defs split: option.splits sum.splits)

lemma handleMenuClick_exit:
  "handleMenuClick client ''Initial'' True w =
     (Inr (),
      w\<lparr>is_open := False, currentView := ''Demo'', location := ''/'',
        trace := trace w @
          (case client of
             None \<Rightarrow> []
           | Some c \<Rightarrow>
               StopStreaming #
               (case stopStreaming_settles c of Inl e \<Rightarrow> [ConsoleError e] | Inr _ \<Rightarrow> []) @
               [LoggerInfo ''stopped streaming'']) @
          [RouterPush ''/'', ChangeView ''Demo'', SetOpen False, SetOpen False]\<rparr>)"
  by (simp add: handleMenuClick_def handleExitClick_run await_def setOpen_def emit_def)

lemma handleMenuClick_view:
  "navigateTo' \<noteq> ''Initial'' \<Longrightarrow>
   handleMenuClick client navigateTo' True w =
     (Inr (),
      w\<lparr>is_open := False, currentView := navigateTo',
        trace := trace w @
          (if currentView w = ''Demo'' \<and> navigateTo' \<noteq> ''Demo'' then
             (case client of
                None \<Rightarrow> []
              | Some c \<Rightarrow>
                  StopStreaming #
                  (case stopStreaming_settles c of
                     Inl e \<Rightarrow> [LoggerError ''Failed to stop streaming:'' e]
                   | Inr _ \<Rightarrow> []))
           else []) @
          [ChangeView navigateTo', LoggerInfo ''stopped streaming'', SetOpen False]\<rparr>)"
  by (simp add: handleMenuClick_def async_defs split: option.splits sum.splits)

lemma handleMenuClick_disabled:
  "handleMenuClick client navigateTo' False w = (Inr (), w)"
  by (simp add: handleMenuClick_def resolve_def)

lemma emitted_exit:
  "emitted (handleMenuClick client ''Initial'' True) w =
     (case client of
        None \<Rightarrow> []
      | Some c \<Rightarrow>
          StopStreaming #
          (case stopStreaming_settles c of Inl e \<Rightarrow> [ConsoleError e] | Inr _ \<Rightarrow> []) @
          [LoggerInfo ''stopped streaming'']) @
     [RouterPush ''/'', ChangeView ''Demo'', SetOpen False, SetOpen False]"
  by (simp add: handleMenuClick_exit emitted_def)

lemma emitted_view:
  "navigateTo' \<noteq> ''Initial'' \<Longrightarrow>
   emitted (handleMenuClick client navigateTo' True) w =
     (if currentView w = ''Demo'' \<and> navigateTo' \<noteq> ''Demo'' then
        (case client of
           None \<Rightarrow> []
         | Some c \<Rightarrow>
             StopStreaming #
             (case stopStreaming_settles c of
                Inl e \<Rightarrow> [LoggerError ''Failed to stop streaming:'' e]
              | Inr _ \<Rightarrow> []))
      else []) @
     [ChangeView navigateTo', LoggerInfo ''stopped streaming'', SetOpen False]"
  by (simp add: handleMenuClick_view emitted_def)

lemma emitted_disabled: "emitted (handleMenuClick client navigateTo' False) w = []"
  by (simp add: handleMenuClick_disabled emitted_def)

lemma emitted_view_plain:
  "navigateTo' \<noteq> ''Initial'' \<Longrightarrow>
   \<not> (currentView w = ''Demo'' \<and> navigateTo' \<noteq> ''Demo'' \<and> client \<noteq> None) \<Longrightarrow>
   emitted (handleMenuClick client navigateTo' True) w =
     [ChangeView navigateTo', LoggerInfo ''stopped streaming'', SetOpen False]"
  by (cases client) (auto simp: emitted_view)

lemma emitted_view_stop:
  "navigateTo' \<noteq> ''Initial'' \<Longrightarrow> currentView w = ''Demo'' \<Longrightarrow> navigateTo' \<noteq> ''Demo'' \<Longrightarrow>
   emitted (handleMenuClick (Some c) navigateTo' True) w =
     StopStreaming #
     (case stopStreaming_settles c of
        Inl e \<Rightarrow> [LoggerError ''Failed to stop streaming:'' e]
      | Inr _ \<Rightarrow> []) @
     [ChangeView navigateTo', LoggerInfo ''stopped streaming'', SetOpen False]"
  by (simp add: emitted_view)

lemmas page_defs = addListener_def removeListener_def streamToVideoAndAudioElements_def
  errorHandler_def setInterval_def clearInterval_def

lemma startStreaming_runs:
  "isClientInitialized ctx \<Longrightarrow> anamClient ctx = Some c \<Longrightarrow>
   startStreaming inst ctx (Some v) (Some a) w =
     w\<lparr>listeners := listeners w @ own_listeners inst,
       calls := calls w @
         [AddListener CONNECTION_ESTABLISHED (inst, onConnectionEstablished),
          AddListener VIDEO_PLAY_STARTED (inst, onVideoStartedStreaming),
          AddListener CONNECTION_CLOSED (inst, onConnectionClosed),
          StreamToVideoAndAudioElements (element_id v) (element_id a)] @
         (case streamTo_settles c of Inl e \<Rightarrow> [ErrorHandler e] | Inr _ \<Rightarrow> [])\<rparr>"
  by (simp add: startStreaming_def startStreaming_begin_def startStreaming_resume_def page_defs
      own_listeners_def Let_def split: sum.splits)

lemma startStreaming_skips:
  "\<not> (isClientInitialized ctx \<and> anamClient ctx \<noteq> None \<and> videoRef \<noteq> None \<and> audioRef \<noteq> None) \<Longrightarrow>
   startStreaming inst ctx videoRef audioRef w = w"
  by (auto simp: startStreaming_def startStreaming_begin_def startStreaming_resume_def
      split: bool.splits option.splits)

lemma mount_runs:
  "isClientInitialized ctx \<Longrightarrow> anamClient ctx = Some c \<Longrightarrow>
   mount inst ctx (Some v) (Some a) w =
     (\<lparr>instance_id = inst, context_seen = ctx, interval = next_handle w, state = initial_state\<rparr>,
      w\<lparr>listeners := listeners w @ own_listeners inst,
        intervals := next_handle w # intervals w,
        next_handle := Suc (next_handle w),
        calls := calls w @
          [AddListener CONNECTION_ESTABLISHED (inst, onConnectionEstablished),
           AddListener VIDEO_PLAY_STARTED (inst, onVideoStartedStreaming),
           AddListener CONNECTION_CLOSED (inst, onConnectionClosed),
           StreamToVideoAndAudioElements (element_id v) (element_id a),
           SetInterval 1000 (next_handle w)] @
          (case streamTo_settles c of Inl e \<Rightarrow> [ErrorHandler e] | Inr _ \<Rightarrow> [])\<rparr>)"
  by (simp add: mount_def startStreaming_begin_def startStreaming_resume_def page_defs
      own_listeners_def Let_def split: sum.splits)

lemma mount_skips:
  "\<not> (isClientInitialized ctx \<and> anamClient ctx \<noteq> None \<and> videoRef \<noteq> None \<and> audioRef \<noteq> None) \<Longrightarrow>
   mount inst ctx videoRef audioRef w =
     (\<lparr>instance_id = inst, context_seen = ctx, interval = next_handle w, state = initial_state\<rparr>,
      w\<lparr>intervals := next_handle w # intervals w,
        next_handle := Suc (next_handle w),
        calls := calls w @ [SetInterval 1000 (next_handle w)]\<rparr>)"
  by (auto simp: mount_def startStreaming_begin_def startStreaming_resume_def setInterval_def
      split: bool.splits option.splits)

lemma cleanup_listeners_Some:
  "anamClient ctx = Some c \<Longrightarrow>
   cleanup_listeners inst ctx w =
     w\<lparr>listeners :=
         remove1 (CONNECTION_CLOSED, (inst, onConnectionClosed))
           (remove1 (VIDEO_PLAY_STARTED, (inst, onVideoStartedStreaming))
             (remove1 (CONNECTION_ESTABLISHED, (inst, onConnectionEstablished)) (listeners w))),
       calls := calls w @
         [RemoveListener CONNECTION_ESTABLISHED (inst, onConnectionEstablished),
          RemoveListener VIDEO_PLAY_STARTED (inst, onVideoStartedStreaming),
          RemoveListener CONNECTION_CLOSED (inst, onConnectionClosed)]\<rparr>"
  by (simp add: cleanup_listeners_def page_defs)

lemma cleanup_listeners_None:
  "anamClient ctx = None \<Longrightarrow> cleanup_listeners inst ctx w = w"
  by (simp add: cleanup_listeners_def)

lemma not_owner_not_member:
  "inst \<notin> owners ls \<Longrightarrow> (ev, (inst, h)) \<notin> set ls"
  by (force simp: owners_def)

lemma remove_own_after_append:
  assumes "inst \<notin> owners ls"
  shows "remove1 (CONNECTION_CLOSED, (inst, onConnectionClosed))
           (remove1 (VIDEO_PLAY_STARTED, (inst, onVideoStartedStreaming))
             (remove1 (CONNECTION_ESTABLISHED, (inst, onConnectionEstablished))
               (ls @ own_listeners inst))) = ls"
  using assms by (simp add: own_listeners_def remove1_append not_owner_not_member)

lemma remove_own_absent:
  assumes "inst \<notin> owners ls"
  shows "remove1 (CONNECTION_CLOSED, (inst, onConnectionClosed))
           (remove1 (VIDEO_PLAY_STARTED, (inst, onVideoStartedStreaming))
             (remove1 (CONNECTION_ESTABLISHED, (inst, onConnectionEstablished)) ls)) = ls"
  using assms by (simp add: remove1_idem not_owner_not_member)

lemma filter_foreign: "inst \<notin> owners ls \<Longrightarrow> filter (\<lambda>p. fst (snd p) = inst) ls = []"
  by (induction ls) (auto simp: owners_def)

lemma listeners_setInterval [simp]: "listeners (snd (setInterval ms w)) = listeners w"
  by (simp add: setInterval_def)

lemma listeners_clearInterval [simp]: "listeners (clearInterval h w) = listeners w"
  by (simp add: clearInterval_def)

lemma listeners_startStreaming:
  "listeners (startStreaming inst ctx videoRef audioRef w) =
     (if isClientInitialized ctx \<and> anamClient ctx \<noteq> None \<and> videoRef \<noteq> None \<and> audioRef \<noteq> None
      then listeners w @ own_listeners inst else listeners w)"
proof (cases "isClientInitialized ctx \<and> anamClient ctx \<noteq> None \<and> videoRef \<noteq> None \<and> audioRef \<noteq> None")
  case True
  then obtain c v a where "anamClient ctx = Some c" "videoRef = Some v" "audioRef = Some a"
    by auto
  with True show ?thesis by (simp add: startStreaming_runs)
next
  case False
  from startStreaming_skips [OF False] False show ?thesis by auto
qed

lemma mount_parts:
  "mount inst ctx videoRef audioRef w = (m, w') \<Longrightarrow>
   instance_id m = inst \<and> context_seen m = ctx \<and> state m = initial_state \<and>
   interval m = next_handle w \<and>
   listeners w' = listeners (startStreaming inst ctx videoRef audioRef w) \<and>
   intervals w' = next_handle w # intervals w"
proof (cases "isClientInitialized ctx \<and> anamClient ctx \<noteq> None \<and> videoRef \<noteq> None \<and> audioRef \<noteq> None")
  case True
  assume mw: "mount inst ctx videoRef audioRef w = (m, w')"
  from True obtain c v a where "anamClient ctx = Some c" "videoRef = Some v" "audioRef = Some a"
    by auto
  with True mw show ?thesis
    by (auto simp: mount_runs startStreaming_runs)
next
  case False
  assume mw: "mount inst ctx videoRef audioRef w = (m, w')"
  from mount_skips [OF False, of inst w] startStreaming_skips [OF False, of inst w] mw
  show ?thesis by auto
qed

lemma listeners_cleanup:
  "inst \<notin> owners ls \<Longrightarrow> listeners w = ls \<or> listeners w = ls @ own_listeners inst \<Longrightarrow>
   anamClient ctx = None \<longrightarrow> listeners w = ls \<Longrightarrow>
   listeners (cleanup_listeners inst ctx w) = ls"
  by (cases "anamClient ctx")
     (auto simp: cleanup_listeners_None cleanup_listeners_Some remove_own_after_append remove_own_absent)

lemma listeners_cycle:
  assumes "mount inst ctx videoRef audioRef w = (m, w')" and "inst \<notin> owners (listeners w)"
  shows "listeners (unmount m w') = listeners w"
proof -
  from mount_parts [OF assms(1)] have m: "instance_id m = inst" "context_seen m = ctx"
    and w': "listeners w' = listeners (startStreaming inst ctx videoRef audioRef w)"
    by simp_all
  have "listeners (cleanup_listeners inst ctx w') = listeners w"
    by (rule listeners_cleanup [OF assms(2)]) (auto simp: w' listeners_startStreaming)
  then show ?thesis by (simp add: unmount_def m)
qed

lemma listeners_remount:
  "fst x \<notin> owners (listeners w) \<Longrightarrow> listeners (remount x w) = listeners w"
proof -
  assume fresh: "fst x \<notin> owners (listeners w)"
  obtain inst ctx videoRef audioRef where x: "x = (inst, ctx, videoRef, audioRef)"
    by (cases x) auto
  obtain m w' where mw: "mount inst ctx videoRef audioRef w = (m, w')"
    by (cases "mount inst ctx videoRef audioRef w") auto
  from listeners_cycle [OF mw] fresh x mw show ?thesis by simp
qed

lemma listeners_remounts:
  "\<forall>x\<in>set xs. fst x \<notin> owners (listeners w) \<Longrightarrow> listeners (remounts xs w) = listeners w"
  by (induction xs arbitrary: w) (simp_all add: listeners_remount)

lemma secondsElapsed_run_handler [simp]:
  "secondsElapsed (run_handler h s) = secondsElapsed s"
  by (cases h) (simp_all add: setLoading_def setLoadingText_def)

lemma secondsElapsed_deliver [simp]:
  "secondsElapsed (deliver inst ev ls s) = secondsElapsed s"
  by (induction inst ev ls s rule: deliver.induct) simp_all

lemma loading_run_handler: "loading (run_handler h s) \<Longrightarrow> loading s"
  by (cases h) (simp_all add: setLoading_def setLoadingText_def)

lemma loading_deliver: "loading (deliver inst ev ls s) \<Longrightarrow> loading s"
  by (induction inst ev ls s rule: deliver.induct) (auto dest: loading_run_handler split: if_splits)

lemma deliver_append:
  "deliver inst ev (ls @ ls') s = deliver inst ev ls' (deliver inst ev ls s)"
  by (induction inst ev ls s rule: deliver.induct) simp_all

lemma deliver_foreign: "inst \<notin> owners ls \<Longrightarrow> deliver inst ev ls s = s"
  by (induction inst ev ls s rule: deliver.induct) (auto simp: owners_def)

lemma step_frame:
  "snd (step x (m, w)) = w \<and> interval (fst (step x (m, w))) = interval m \<and>
   instance_id (fst (step x (m, w))) = instance_id m \<and>
   context_seen (fst (step x (m, w))) = context_seen m"
  by (cases x) (simp_all add: tick_def)

lemma run_frame:
  "snd (run xs (m, w)) = w \<and> interval (fst (run xs (m, w))) = interval m \<and>
   instance_id (fst (run xs (m, w))) = instance_id m \<and>
   context_seen (fst (run xs (m, w))) = context_seen m"
proof (induction xs arbitrary: m)
  case Nil
  show ?case by simp
next
  case (Cons x xs)
  have "step x (m, w) = (fst (step x (m, w)), w)"
    using step_frame [of x m w] by (cases "step x (m, w)") simp
  with Cons [of "fst (step x (m, w))"] step_frame [of x m w] show ?case
    by simp
qed

lemma run_pair: "run xs (m, w) = (fst (run xs (m, w)), w)"
  using run_frame [of xs m w] by (cases "run xs (m, w)") simp

lemma secondsElapsed_step:
  "secondsElapsed (state (fst (step x (m, w)))) =
     secondsElapsed (state m) +
     (if x = Tick (interval m) \<and> interval m \<in> set (intervals w) then 1 else 0)"
  by (cases x) (auto simp: tick_def setSecondsElapsed_def DemoControls_def)

lemma secondsElapsed_run:
  "secondsElapsed (state (fst (run xs (m, w)))) =
     secondsElapsed (state m) +
     (if interval m \<in> set (intervals w) then count_list xs (Tick (interval m)) else 0)"
proof (induction xs arbitrary: m)
  case Nil
  show ?case by simp
next
  case (Cons x xs)
  have "step x (m, w) = (fst (step x (m, w)), w)"
    using step_frame [of x m w] by (cases "step x (m, w)") simp
  with Cons [of "fst (step x (m, w))"] step_frame [of x m w] secondsElapsed_step [of x m w]
  show ?case by simp
qed

lemma mount_timer:
  "mount inst ctx videoRef audioRef w = (m, w') \<Longrightarrow>
   interval m \<in> set (intervals w') \<and> secondsElapsed (state m) = 0"
  using mount_parts [of inst ctx videoRef audioRef w m w']
  by (simp add: initial_state_def)

lemma mount_sets_interval:
  "mount inst ctx videoRef audioRef w = (m, w') \<Longrightarrow>
   SetInterval 1000 (interval m) \<in> set (new_calls w w')"
proof (cases "isClientInitialized ctx \<and> anamClient ctx \<noteq> None \<and> videoRef \<noteq> None \<and> audioRef \<noteq> None")
  case True
  assume mw: "mount inst ctx videoRef audioRef w = (m, w')"
  from True obtain c v a where "anamClient ctx = Some c" "videoRef = Some v" "audioRef = Some a"
    by auto
  with True mw show ?thesis
    by (auto simp: mount_runs new_calls_def)
next
  case False
  assume mw: "mount inst ctx videoRef audioRef w = (m, w')"
  from mount_skips [OF False, of inst w] mw show ?thesis
    by (auto simp: new_calls_def)
qed

lemma unmount_timer:
  "interval m \<notin> set (intervals (unmount m w)) \<and>
   ClearInterval (interval m) \<in> set (new_calls w (unmount m w))"
  by (cases "anamClient (context_seen m)")
     (simp_all add: unmount_def clearInterval_def new_calls_def cleanup_listeners_None
        cleanup_listeners_Some)

section \<open>Properties of the sidebar\<close>

text \<open>
  C1. A click on the "Exit" entry (the one entry whose target is \<open>Initial\<close>): when a client
  exists, \<^verbatim>\<open>stopStreaming\<close> is called and its promise is settled (and a rejection handed
  to \<^verbatim>\<open>console.error\<close>) before anything else; then, with or without a client, the
  router pushes \<open>/\<close> and after it the view is set to \<open>Demo\<close>. The handler itself
  fulfils.
\<close>

theorem exit_click_stops_then_navigates:
  "map title (filter (\<lambda>item. navigateTo item = ''Initial'') Menus) = [''Exit''] \<and>
   onClick client (Menus ! 5) = handleMenuClick client ''Initial'' True \<and>
   fst (handleMenuClick client ''Initial'' True w) = Inr () \<and>
   emitted (handleMenuClick client ''Initial'' True) w =
     (case client of
        None \<Rightarrow> []
      | Some c \<Rightarrow>
          StopStreaming #
          (case stopStreaming_settles c of Inl e \<Rightarrow> [ConsoleError e] | Inr _ \<Rightarrow> []) @
          [LoggerInfo ''stopped streaming'']) @
     [RouterPush ''/'', ChangeView ''Demo'', SetOpen False, SetOpen False] \<and>
   location (snd (handleMenuClick client ''Initial'' True w)) = ''/'' \<and>
   currentView (snd (handleMenuClick client ''Initial'' True w)) = ''Demo''"
  by (simp add: handleMenuClick_exit emitted_exit onClick_def Menus_def)

theorem exit_click_stops_then_navigates_witness:
  "emitted (handleMenuClick (Some failing_client) ''Initial'' True) demo_world =
     [StopStreaming, ConsoleError (JsError ''network''), LoggerInfo ''stopped streaming'',
      RouterPush ''/'', ChangeView ''Demo'', SetOpen False, SetOpen False] \<and>
   emitted (handleMenuClick None ''Initial'' True) demo_world =
     [RouterPush ''/'', ChangeView ''Demo'', SetOpen False, SetOpen False]"
  using exit_click_stops_then_navigates [of "Some failing_client" demo_world]
    exit_click_stops_then_navigates [of None demo_world]
  by (simp add: failing_client_def)

text \<open>
  C2. A click on an entry whose \<open>clickable\<close> flag is false changes nothing: the handler
  returns at once, the world (open flag, current view, location) is the one before the
  click, and the trace has no new effect, so neither a navigation nor a
  \<^verbatim>\<open>stopStreaming\<close> call.
\<close>

theorem non_clickable_click_is_noop:
  "\<not> clickable item \<Longrightarrow>
   onClick client item w = (Inr (), w) \<and> emitted (onClick client item) w = []"
  by (simp add: onClick_def handleMenuClick_disabled emitted_def)

theorem non_clickable_click_is_noop_witness:
  "\<not> clickable (Menus ! 1) \<and> title (Menus ! 1) = ''Vocabulary'' \<and>
   onClick (Some failing_client) (Menus ! 1) demo_world = (Inr (), demo_world) \<and>
   emitted (onClick (Some failing_client) (Menus ! 1)) demo_world = []"
proof -
  have h: "\<not> clickable (Menus ! 1)" by (simp add: Menus_def)
  show ?thesis
    using h non_clickable_click_is_noop [OF h, of "Some failing_client" demo_world]
    by (simp add: Menus_def)
qed

text \<open>
  C3. A click with a clickable target other than \<open>Initial\<close>: when the current view is
  \<open>Demo\<close>, the target is not \<open>Demo\<close> and a client exists, \<^verbatim>\<open>stopStreaming\<close> is called
  exactly once and is the first effect, so before the view change; in every other such
  click it is not called.
\<close>

theorem view_switch_stops_streaming_once:
  "navigateTo' \<noteq> ''Initial'' \<Longrightarrow>
   count_list (emitted (handleMenuClick client navigateTo' True) w) StopStreaming =
     (if currentView w = ''Demo'' \<and> navigateTo' \<noteq> ''Demo'' \<and> client \<noteq> None
      then 1 else 0) \<and>
   (if currentView w = ''Demo'' \<and> navigateTo' \<noteq> ''Demo'' \<and> client \<noteq> None
    then hd (emitted (handleMenuClick client navigateTo' True) w) = StopStreaming \<and>
         ChangeView navigateTo' \<in> set (tl (emitted (handleMenuClick client navigateTo' True) w))
    else emitted (handleMenuClick client navigateTo' True) w =
           [ChangeView navigateTo', LoggerInfo ''stopped streaming'', SetOpen False])"
proof (cases "currentView w = ''Demo'' \<and> navigateTo' \<noteq> ''Demo'' \<and> client \<noteq> None")
  case False
  assume "navigateTo' \<noteq> ''Initial''"
  from emitted_view_plain [OF this False] False show ?thesis
    by simp
next
  case True
  assume ni: "navigateTo' \<noteq> ''Initial''"
  from True obtain c where c: "client = Some c" by auto
  from True have "emitted (handleMenuClick (Some c) navigateTo' True) w =
     StopStreaming #
     (case stopStreaming_settles c of
        Inl e \<Rightarrow> [LoggerError ''Failed to stop streaming:'' e]
      | Inr _ \<Rightarrow> []) @
     [ChangeView navigateTo', LoggerInfo ''stopped streaming'', SetOpen False]"
    by (simp add: emitted_view_stop [OF ni])
  with True c show ?thesis
    by (simp split: sum.splits)
qed

theorem view_switch_stops_streaming_once_witness:
  "''Settings'' \<noteq> ''Initial'' \<and>
   emitted (handleMenuClick (Some failing_client) ''Settings'' True) demo_world =
     [StopStreaming, LoggerError ''Failed to stop streaming:'' (JsError ''network''),
      ChangeView ''Settings'', LoggerInfo ''stopped streaming'', SetOpen False] \<and>
   count_list (emitted (handleMenuClick (Some failing_client) ''Settings'' True) demo_world)
     StopStreaming = 1 \<and>
   count_list (emitted (handleMenuClick (Some failing_client) ''Demo'' True) demo_world)
     StopStreaming = 0"
proof -
  have h: "''Settings'' \<noteq> ''Initial''" and h': "''Demo'' \<noteq> ''Initial''" by simp_all
  have "emitted (handleMenuClick (Some failing_client) ''Settings'' True) demo_world =
     [StopStreaming, LoggerError ''Failed to stop streaming:'' (JsError ''network''),
      ChangeView ''Settings'', LoggerInfo ''stopped streaming'', SetOpen False]"
    by (simp add: emitted_view demo_world_def failing_client_def)
  moreover have "currentView demo_world = ''Demo''"
    by (simp add: demo_world_def)
  ultimately show ?thesis
    using view_switch_stops_streaming_once [OF h, of "Some failing_client" demo_world]
      view_switch_stops_streaming_once [OF h', of "Some failing_client" demo_world]
    by simp
qed

text \<open>
  C4. When the promise of \<^verbatim>\<open>stopStreaming\<close> rejects with \<open>e\<close>, on the view-switch path as
  on the Exit path: the handler still fulfils (nothing is thrown on), every call of
  \<^verbatim>\<open>stopStreaming\<close> it made is followed at once by \<^verbatim>\<open>logger.error\<close> or
  \<^verbatim>\<open>console.error\<close> receiving \<open>e\<close>, and apart from that report the effects and the
  resulting open flag, view and location are those of the same click with a promise
  that fulfils.
\<close>

theorem stop_rejection_is_swallowed:
  "stopStreaming_settles c = Inl e \<Longrightarrow>
   fst (handleMenuClick (Some c) navigateTo' clickable' w) = Inr () \<and>
   reported_after_stop e (emitted (handleMenuClick (Some c) navigateTo' clickable') w) \<and>
   filter (\<lambda>x. \<not> is_error_report x) (emitted (handleMenuClick (Some c) navigateTo' clickable') w) =
     emitted (handleMenuClick (Some (c\<lparr>stopStreaming_settles := Inr ()\<rparr>)) navigateTo' clickable') w \<and>
   ui (snd (handleMenuClick (Some c) navigateTo' clickable' w)) =
     ui (snd (handleMenuClick (Some (c\<lparr>stopStreaming_settles := Inr ()\<rparr>)) navigateTo' clickable' w))"
proof (cases clickable')
  case False
  then show ?thesis
    by (simp add: handleMenuClick_disabled emitted_disabled)
next
  case True
  assume rej: "stopStreaming_settles c = Inl e"
  show ?thesis
  proof (cases "navigateTo' = ''Initial''")
    case exit: True
    with True rej show ?thesis
      by (simp add: handleMenuClick_exit emitted_exit ui_def is_error_report_def)
  next
    case switch: False
    with True rej show ?thesis
      by (simp add: handleMenuClick_view emitted_view ui_def is_error_report_def cong: if_cong)
  qed
qed

theorem stop_rejection_is_swallowed_witness:
  "stopStreaming_settles failing_client = Inl (JsError ''network'') \<and>
   fst (handleMenuClick (Some failing_client) ''Settings'' True demo_world) = Inr () \<and>
   fst (handleMenuClick (Some failing_client) ''Initial'' True demo_world) = Inr () \<and>
   ui (snd (handleMenuClick (Some failing_client) ''Settings'' True demo_world)) =
     (False, ''Settings'', ''/demo'') \<and>
   ui (snd (handleMenuClick (Some failing_client) ''Initial'' True demo_world)) =
     (False, ''Demo'', ''/'')"
proof -
  have h: "stopStreaming_settles failing_client = Inl (JsError ''network'')"
    by (simp add: failing_client_def)
  have "ui (snd (handleMenuClick (Some (failing_client\<lparr>stopStreaming_settles := Inr ()\<rparr>))
          ''Settings'' True demo_world)) = (False, ''Settings'', ''/demo'')"
    by (simp add: handleMenuClick_view ui_def demo_world_def)
  moreover have "ui (snd (handleMenuClick (Some (failing_client\<lparr>stopStreaming_settles := Inr ()\<rparr>))
          ''Initial'' True demo_world)) = (False, ''Demo'', ''/'')"
    by (simp add: handleMenuClick_exit ui_def demo_world_def)
  ultimately show ?thesis
    using h stop_rejection_is_swallowed [OF h, of "''Settings''" True demo_world]
      stop_rejection_is_swallowed [OF h, of "''Initial''" True demo_world]
    by simp
qed

text \<open>
  C10. A click on a clickable entry other than "Exit" (target not \<open>Initial\<close>) sets the
  current view to the entry's target, never calls the router's push (the location stays
  what it was) and leaves the open flag false; the Exit click leaves the open flag false
  too.
\<close>

theorem view_switch_sets_view_and_closes:
  "navigateTo' \<noteq> ''Initial'' \<Longrightarrow>
   currentView (snd (handleMenuClick client navigateTo' True w)) = navigateTo' \<and>
   (\<forall>path. RouterPush path \<notin> set (emitted (handleMenuClick client navigateTo' True) w)) \<and>
   location (snd (handleMenuClick client navigateTo' True w)) = location w \<and>
   last (emitted (handleMenuClick client navigateTo' True) w) = SetOpen False \<and>
   is_open (snd (handleMenuClick client navigateTo' True w)) = False \<and>
   last (emitted (handleMenuClick client ''Initial'' True) w) = SetOpen False \<and>
   is_open (snd (handleMenuClick client ''Initial'' True w)) = False"
proof -
  assume ni: "navigateTo' \<noteq> ''Initial''"
  have "\<forall>path. RouterPush path \<notin> set (emitted (handleMenuClick client navigateTo' True) w)"
  proof (cases "currentView w = ''Demo'' \<and> navigateTo' \<noteq> ''Demo'' \<and> client \<noteq> None")
    case False
    from emitted_view_plain [OF ni False] show ?thesis by simp
  next
    case True
    then obtain c where "client = Some c" by auto
    with True emitted_view_stop [OF ni, of w c] show ?thesis
      by (simp split: sum.splits)
  qed
  moreover have "last (emitted (handleMenuClick client navigateTo' True) w) = SetOpen False"
    by (simp add: emitted_view [OF ni])
  moreover have "last (emitted (handleMenuClick client ''Initial'' True) w) = SetOpen False"
    by (simp add: emitted_exit)
  moreover have "currentView (snd (handleMenuClick client navigateTo' True w)) = navigateTo'"
    and "location (snd (handleMenuClick client navigateTo' True w)) = location w"
    and "is_open (snd (handleMenuClick client navigateTo' True w)) = False"
    by (simp_all add: handleMenuClick_view [OF ni])
  moreover have "is_open (snd (handleMenuClick client ''Initial'' True w)) = False"
    by (simp add: handleMenuClick_exit)
  ultimately show ?thesis
    by blast
qed

theorem view_switch_sets_view_and_closes_witness:
  "''Settings'' \<noteq> ''Initial'' \<and>
   map navigateTo (filter (\<lambda>item. clickable item \<and> title item \<noteq> ''Exit'') Menus) =
     [''Demo'', ''Settings''] \<and>
   currentView (snd (handleMenuClick None ''Settings'' True demo_world)) = ''Settings'' \<and>
   location (snd (handleMenuClick None ''Settings'' True demo_world)) = ''/demo'' \<and>
   is_open (snd (handleMenuClick None ''Settings'' True demo_world)) = False"
proof -
  have h: "''Settings'' \<noteq> ''Initial''" by simp
  have "location demo_world = ''/demo''" by (simp add: demo_world_def)
  then show ?thesis
    using h view_switch_sets_view_and_closes [OF h, of None demo_world]
    by (simp add: Menus_def)
qed

section \<open>Properties of the avatar panel\<close>

text \<open>
  C5. From mount on, the panel's timer (set with a period of 1000 ms) is the only thing
  that moves the counter: after any operations the counter is the number of times the
  panel's interval fired, and one more firing takes it from \<open>n\<close> to \<open>n + 1\<close>. Unmounting
  clears that interval, and after it nothing, no firing of any handle either, changes the
  counter.
\<close>

theorem timer_ticks_count_until_unmount:
  "mount inst ctx videoRef audioRef w = (m, w') \<Longrightarrow>
   SetInterval 1000 (interval m) \<in> set (new_calls w w') \<and>
   secondsElapsed (state (fst (run ops (m, w')))) = count_list ops (Tick (interval m)) \<and>
   secondsElapsed (state (fst (step (Tick (interval m)) (run ops (m, w'))))) =
     secondsElapsed (state (fst (run ops (m, w')))) + 1 \<and>
   ClearInterval (interval m) \<in> set (new_calls w' (unmount (fst (run ops (m, w'))) w')) \<and>
   secondsElapsed
     (state (fst (run ops' (fst (run ops (m, w')), unmount (fst (run ops (m, w'))) w')))) =
     secondsElapsed (state (fst (run ops (m, w'))))"
proof -
  assume mw: "mount inst ctx videoRef audioRef w = (m, w')"
  define m1 where "m1 = fst (run ops (m, w'))"
  have m1: "run ops (m, w') = (m1, w')" "interval m1 = interval m"
    unfolding m1_def using run_pair [of ops m w'] run_frame [of ops m w'] by simp_all
  from mount_timer [OF mw] have active: "interval m \<in> set (intervals w')"
    and zero: "secondsElapsed (state m) = 0"
    by simp_all
  have "secondsElapsed (state m1) = count_list ops (Tick (interval m))"
    unfolding m1_def using secondsElapsed_run [of ops m w'] active zero by simp
  moreover have "secondsElapsed (state (fst (step (Tick (interval m)) (m1, w')))) =
      secondsElapsed (state m1) + 1"
    using secondsElapsed_step [of "Tick (interval m)" m1 w'] active m1(2) by simp
  moreover have "ClearInterval (interval m) \<in> set (new_calls w' (unmount m1 w'))"
    using unmount_timer [of m1 w'] m1(2) by simp
  moreover have "secondsElapsed (state (fst (run ops' (m1, unmount m1 w')))) =
      secondsElapsed (state m1)"
    using secondsElapsed_run [of ops' m1 "unmount m1 w'"] unmount_timer [of m1 w'] by simp
  ultimately show ?thesis
    unfolding m1(1) fst_conv using mount_sets_interval [OF mw] by blast
qed

theorem timer_ticks_count_until_unmount_witness:
  "interval (fst (mount 7 ready_context (Some video) (Some audio) empty_page)) = 0 \<and>
   secondsElapsed (state (fst (run [Tick 0, Emit VIDEO_PLAY_STARTED, Tick 0, Tick 3]
     (mount 7 ready_context (Some video) (Some audio) empty_page)))) = 2"
proof -
  define m where "m = fst (mount 7 ready_context (Some video) (Some audio) empty_page)"
  define w' where "w' = snd (mount 7 ready_context (Some video) (Some audio) empty_page)"
  have mw: "mount 7 ready_context (Some video) (Some audio) empty_page = (m, w')"
    by (simp add: m_def w'_def)
  have h: "interval m = 0"
    using mount_parts [OF mw] by (simp add: empty_page_def)
  from timer_ticks_count_until_unmount [OF mw, of "[Tick 0, Emit VIDEO_PLAY_STARTED, Tick 0, Tick 3]"]
  have "secondsElapsed (state (fst (run [Tick 0, Emit VIDEO_PLAY_STARTED, Tick 0, Tick 3] (m, w')))) =
      count_list [Tick 0, Emit VIDEO_PLAY_STARTED, Tick 0, Tick 3] (Tick 0)"
    by (simp only: h)
  then have "secondsElapsed (state (fst (run [Tick 0, Emit VIDEO_PLAY_STARTED, Tick 0, Tick 3]
      (mount 7 ready_context (Some video) (Some audio) empty_page)))) = 2"
    by (simp only: mw) simp
  with h show ?thesis
    unfolding m_def by blast
qed

text \<open>
  C6. The counter is a natural number that starts at 0 on mount, and no operation on a
  mounted panel (a firing of a timer, an event of the client, an action of the
  controls) makes it smaller, nor does any run of them.
\<close>

theorem counter_never_decreases:
  "secondsElapsed (state (fst (mount inst ctx videoRef audioRef w0))) = 0 \<and>
   secondsElapsed (state m) \<le> secondsElapsed (state (fst (step x (m, w)))) \<and>
   secondsElapsed (state m) \<le> secondsElapsed (state (fst (run ops (m, w))))"
proof -
  have "secondsElapsed (state (fst (mount inst ctx videoRef audioRef w0))) = 0"
    using mount_timer [of inst ctx videoRef audioRef w0] 
    by (cases "mount inst ctx videoRef audioRef w0") simp
  then show ?thesis
    by (simp add: secondsElapsed_step secondsElapsed_run)
qed

theorem counter_never_decreases_witness:
  "secondsElapsed (state (fst (mount 7 ready_context (Some video) (Some audio) empty_page))) = 0 \<and>
   secondsElapsed initial_state \<le>
     secondsElapsed (state (fst (step Controls
       (\<lparr>instance_id = 7, context_seen = ready_context, interval = 0, state = initial_state\<rparr>,
        empty_page))))"
  using counter_never_decreases [of 7 ready_context "Some video" "Some audio" empty_page
      "\<lparr>instance_id = 7, context_seen = ready_context, interval = 0, state = initial_state\<rparr>"
      Controls empty_page "[]"]
  by simp

text \<open>
  C7, as amended. In every mount/unmount cycle each pair registered on mount is removed
  on unmount. When the registration took place, the pairs removed are exactly the
  three registered (for connection-established, video-play-started and
  connection-closed, with the instance's own three callbacks). When it was skipped and a
  client is present, nothing was registered and the unmount still asks for the three
  removals, which find nothing to remove; without a client nothing is registered and nothing
  removed. In each case a client that held none of the instance's callbacks before the mount
  holds, after the unmount, the list of listeners it held before: over any number of
  remounts nothing accumulates and nothing of a disposed instance stays.
\<close>

theorem registered_listeners_are_removed:
  "mount inst ctx videoRef audioRef w = (m, w') \<Longrightarrow>
   set (registered (new_calls w w')) \<subseteq> set (removed (new_calls w' (unmount m w'))) \<and>
   (registered (new_calls w w') =
      (if isClientInitialized ctx \<and> anamClient ctx \<noteq> None \<and> videoRef \<noteq> None \<and> audioRef \<noteq> None
       then own_listeners inst else [])) \<and>
   (removed (new_calls w' (unmount m w')) =
      (if anamClient ctx \<noteq> None then own_listeners inst else [])) \<and>
   (inst \<notin> owners (listeners w) \<longrightarrow>
      distinct (filter (\<lambda>p. fst (snd p) = inst) (listeners w')) \<and>
      listeners (unmount m w') = listeners w) \<and>
   ((\<forall>x\<in>set xs. fst x \<notin> owners (listeners w)) \<longrightarrow> listeners (remounts xs w) = listeners w)"
proof -
  assume mw: "mount inst ctx videoRef audioRef w = (m, w')"
  from mount_parts [OF mw] have m: "instance_id m = inst" "context_seen m = ctx"
    by simp_all
  have reg: "registered (new_calls w w') =
      (if isClientInitialized ctx \<and> anamClient ctx \<noteq> None \<and> videoRef \<noteq> None \<and> audioRef \<noteq> None
       then own_listeners inst else [])"
  proof (cases "isClientInitialized ctx \<and> anamClient ctx \<noteq> None \<and> videoRef \<noteq> None \<and> audioRef \<noteq> None")
    case True
    then obtain c v a where "anamClient ctx = Some c" "videoRef = Some v" "audioRef = Some a"
      by auto
    with True mw show ?thesis
      by (auto simp: mount_runs new_calls_def own_listeners_def split: sum.splits)
  next
    case False
    from mount_skips [OF False, of inst w] mw False show ?thesis
      by (auto simp: new_calls_def)
  qed
  have rem: "removed (new_calls w' (unmount m w')) =
      (if anamClient ctx \<noteq> None then own_listeners inst else [])"
    by (cases "anamClient ctx")
       (simp_all add: unmount_def m clearInterval_def new_calls_def cleanup_listeners_None
          cleanup_listeners_Some own_listeners_def)
  have "set (registered (new_calls w w')) \<subseteq> set (removed (new_calls w' (unmount m w')))"
    unfolding reg rem by auto
  moreover have "inst \<notin> owners (listeners w) \<longrightarrow> listeners (unmount m w') = listeners w"
    using listeners_cycle [OF mw] by simp
  moreover have "inst \<notin> owners (listeners w) \<longrightarrow>
      distinct (filter (\<lambda>p. fst (snd p) = inst) (listeners w'))"
    using mount_parts [OF mw]
    by (simp add: listeners_startStreaming filter_foreign) (simp add: own_listeners_def)
  moreover have "(\<forall>x\<in>set xs. fst x \<notin> owners (listeners w)) \<longrightarrow>
      listeners (remounts xs w) = listeners w"
    using listeners_remounts [of xs w] by simp
  ultimately show ?thesis
    using reg rem by simp
qed

theorem registered_listeners_are_removed_witness:
  "registered (new_calls empty_page (snd (mount 7 ready_context (Some video) (Some audio) empty_page))) =
     own_listeners 7 \<and>
   removed (new_calls (snd (mount 7 ready_context (Some video) (Some audio) empty_page))
     (unmount (fst (mount 7 ready_context (Some video) (Some audio) empty_page))
        (snd (mount 7 ready_context (Some video) (Some audio) empty_page)))) = own_listeners 7 \<and>
   listeners (snd (mount 7 ready_context (Some video) (Some audio) empty_page)) = own_listeners 7 \<and>
   listeners (unmount (fst (mount 7 ready_context (Some video) (Some audio) empty_page))
     (snd (mount 7 ready_context (Some video) (Some audio) empty_page))) = [] \<and>
   listeners (remounts
     [(7, ready_context, Some video, Some audio), (7, waiting_context, Some video, Some audio),
      (8, ready_context, None, Some audio)] empty_page) = []"
proof -
  define m where "m = fst (mount 7 ready_context (Some video) (Some audio) empty_page)"
  define w' where "w' = snd (mount 7 ready_context (Some video) (Some audio) empty_page)"
  have mw: "mount 7 ready_context (Some video) (Some audio) empty_page = (m, w')"
    by (simp add: m_def w'_def)
  have ctx: "isClientInitialized ready_context" "anamClient ready_context \<noteq> None"
    by (simp_all add: ready_context_def)
  have fresh: "7 \<notin> owners (listeners empty_page)" "8 \<notin> owners (listeners empty_page)"
    by (simp_all add: owners_def empty_page_def)
  have "listeners w' = own_listeners 7"
    using mount_parts [OF mw] by (simp add: listeners_startStreaming ctx empty_page_def)
  with registered_listeners_are_removed [OF mw,
      of "[(7, ready_context, Some video, Some audio), (7, waiting_context, Some video, Some audio),
           (8, ready_context, None, Some audio)]"] ctx fresh
  show ?thesis
    unfolding m_def w'_def by (simp add: empty_page_def)
qed

text \<open>
  C7, as stated, fails on a cycle whose registration was skipped while a client is
  present: with the client not yet initialized nothing is registered on mount, and the
  unmount still removes the three pairs.
\<close>

theorem skipped_registration_counterexample:
  "registered (new_calls empty_page
      (snd (mount 7 waiting_context (Some video) (Some audio) empty_page))) = [] \<and>
   removed (new_calls (snd (mount 7 waiting_context (Some video) (Some audio) empty_page))
      (unmount (fst (mount 7 waiting_context (Some video) (Some audio) empty_page))
         (snd (mount 7 waiting_context (Some video) (Some audio) empty_page)))) =
     [(CONNECTION_ESTABLISHED, (7, onConnectionEstablished)),
      (VIDEO_PLAY_STARTED, (7, onVideoStartedStreaming)),
      (CONNECTION_CLOSED, (7, onConnectionClosed))] \<and>
   set (removed (new_calls (snd (mount 7 waiting_context (Some video) (Some audio) empty_page))
      (unmount (fst (mount 7 waiting_context (Some video) (Some audio) empty_page))
         (snd (mount 7 waiting_context (Some video) (Some audio) empty_page))))) \<noteq>
   set (registered (new_calls empty_page
      (snd (mount 7 waiting_context (Some video) (Some audio) empty_page))))"
  by (simp add: mount_def unmount_def startStreaming_begin_def startStreaming_resume_def
      cleanup_listeners_def page_defs new_calls_def waiting_context_def empty_page_def)

text \<open>
  C8. On mount with an initialized client and both media elements in their refs,
  \<^verbatim>\<open>startStreaming\<close> makes exactly these calls, in this order: the three registrations
  (connection-established, video-play-started, connection-closed), then the combined
  streaming call, which receives the ids \<open>video\<close> and \<open>audio\<close> of the two rendered
  elements; a rejection of that call goes to the error handler. On mount the interval is
  set right after the streaming call, before that promise settles.
\<close>

theorem mount_registers_then_streams:
  "isClientInitialized ctx \<Longrightarrow> anamClient ctx = Some c \<Longrightarrow>
   new_calls w (startStreaming inst ctx (Some video) (Some audio) w) =
     [AddListener CONNECTION_ESTABLISHED (inst, onConnectionEstablished),
      AddListener VIDEO_PLAY_STARTED (inst, onVideoStartedStreaming),
      AddListener CONNECTION_CLOSED (inst, onConnectionClosed),
      StreamToVideoAndAudioElements ''video'' ''audio''] @
     (case streamTo_settles c of Inl e \<Rightarrow> [ErrorHandler e] | Inr _ \<Rightarrow> []) \<and>
   length (registered (new_calls w (startStreaming inst ctx (Some video) (Some audio) w))) = 3 \<and>
   new_calls w (snd (mount inst ctx (Some video) (Some audio) w)) =
     [AddListener CONNECTION_ESTABLISHED (inst, onConnectionEstablished),
      AddListener VIDEO_PLAY_STARTED (inst, onVideoStartedStreaming),
      AddListener CONNECTION_CLOSED (inst, onConnectionClosed),
      StreamToVideoAndAudioElements ''video'' ''audio'',
      SetInterval 1000 (next_handle w)] @
     (case streamTo_settles c of Inl e \<Rightarrow> [ErrorHandler e] | Inr _ \<Rightarrow> []) \<and>
   registered (new_calls w (snd (mount inst ctx (Some video) (Some audio) w))) =
     own_listeners inst"
  by (simp add: startStreaming_runs mount_runs new_calls_def video_def audio_def own_listeners_def
      split: sum.splits)

theorem mount_registers_then_streams_witness:
  "isClientInitialized ready_context \<and> anamClient ready_context = Some failing_client \<and>
   new_calls empty_page (startStreaming 7 ready_context (Some video) (Some audio) empty_page) =
     [AddListener CONNECTION_ESTABLISHED (7, onConnectionEstablished),
      AddListener VIDEO_PLAY_STARTED (7, onVideoStartedStreaming),
      AddListener CONNECTION_CLOSED (7, onConnectionClosed),
      StreamToVideoAndAudioElements ''video'' ''audio''] \<and>
   new_calls empty_page
     (snd (mount 7 \<lparr>anamClient = Some rejecting_stream_client, isClientInitialized = True\<rparr>
        (Some video) (Some audio) empty_page)) =
     [AddListener CONNECTION_ESTABLISHED (7, onConnectionEstablished),
      AddListener VIDEO_PLAY_STARTED (7, onVideoStartedStreaming),
      AddListener CONNECTION_CLOSED (7, onConnectionClosed),
      StreamToVideoAndAudioElements ''video'' ''audio'',
      SetInterval 1000 0,
      ErrorHandler (JsError ''camera'')]"
proof -
  have h: "isClientInitialized ready_context" "anamClient ready_context = Some failing_client"
    by (simp_all add: ready_context_def)
  have h': "isClientInitialized \<lparr>anamClient = Some rejecting_stream_client, isClientInitialized = True\<rparr>"
    "anamClient \<lparr>anamClient = Some rejecting_stream_client, isClientInitialized = True\<rparr> =
       Some rejecting_stream_client"
    by simp_all
  from mount_registers_then_streams [OF h, of empty_page 7]
    mount_registers_then_streams [OF h', of empty_page 7] h
  show ?thesis
    by (simp add: failing_client_def rejecting_stream_client_def empty_page_def)
qed

text \<open>
  C9. The spinner starts as loading with the message \<open>Connecting...\<close>. Once the panel's
  callbacks are registered, connection-established changes the message to
  \<open>Connected to a Persona.\<close> and nothing else, so the loading flag stays as it was;
  video-play-started and connection-closed each set the loading flag to false and change
  nothing else. No event, whatever the client's listeners, turns a false loading flag
  back to true.
\<close>

theorem loading_follows_events:
  "loading initial_state \<and> loadingText initial_state = ''Connecting...'' \<and>
   (isClientInitialized ctx \<and> anamClient ctx = Some c \<and> inst \<notin> owners (listeners w) \<longrightarrow>
      deliver inst CONNECTION_ESTABLISHED
        (listeners (startStreaming inst ctx (Some v) (Some a) w)) s =
        s\<lparr>loadingText := ''Connected to a Persona.''\<rparr> \<and>
      deliver inst VIDEO_PLAY_STARTED
        (listeners (startStreaming inst ctx (Some v) (Some a) w)) s = s\<lparr>loading := False\<rparr> \<and>
      deliver inst CONNECTION_CLOSED
        (listeners (startStreaming inst ctx (Some v) (Some a) w)) s = s\<lparr>loading := False\<rparr>) \<and>
   (loading (deliver inst ev ls s) \<longrightarrow> loading s)"
  by (auto simp: initial_state_def startStreaming_runs deliver_append deliver_foreign
      own_listeners_def setLoading_def setLoadingText_def dest: loading_deliver)

theorem loading_follows_events_witness:
  "deliver 7 CONNECTION_ESTABLISHED
     (listeners (startStreaming 7 ready_context (Some video) (Some audio) empty_page))
     initial_state =
     \<lparr>loading = True, loadingText = ''Connected to a Persona.'', secondsElapsed = 0\<rparr> \<and>
   deliver 7 VIDEO_PLAY_STARTED
     (listeners (startStreaming 7 ready_context (Some video) (Some audio) empty_page))
     initial_state =
     \<lparr>loading = False, loadingText = ''Connecting...'', secondsElapsed = 0\<rparr> \<and>
   deliver 7 CONNECTION_CLOSED
     (listeners (startStreaming 7 ready_context (Some video) (Some audio) empty_page))
     initial_state =
     \<lparr>loading = False, loadingText = ''Connecting...'', secondsElapsed = 0\<rparr>"
proof -
  have h: "isClientInitialized ready_context \<and> anamClient ready_context = Some failing_client \<and>
      7 \<notin> owners (listeners empty_page)"
    by (simp add: ready_context_def owners_def empty_page_def)
  from loading_follows_events [of ready_context failing_client 7 empty_page video audio
      initial_state] h
  show ?thesis
    by (simp add: initial_state_def)
qed

end
